theory Spec2Isabelle
  imports Main
begin

section \<open>The inventory backend: rows, mapping, filters and the two list handlers\<close>

text \<open>
  The program is one TypeScript module, \<^verbatim>\<open>src/main.ts\<close>. It fetches the two tables
  \<^verbatim>\<open>Items\<close> and \<^verbatim>\<open>Tags\<close>, maps their rows to the public \<^verbatim>\<open>Item\<close> and \<^verbatim>\<open>Tag\<close>
  shapes and filters the result by the query parameters. The embedding keeps the
  source's names where HOL allows it; record fields carry a prefix, since HOL has one
  name space for all fields (\<^verbatim>\<open>gi_\<close> for \<^verbatim>\<open>GristItem\<close>, \<^verbatim>\<open>gt_\<close> for \<^verbatim>\<open>GristTag\<close>,
  \<^verbatim>\<open>it_\<close> for \<^verbatim>\<open>Item\<close>, \<^verbatim>\<open>tg_\<close> for \<^verbatim>\<open>Tag\<close>, \<^verbatim>\<open>q_\<close> for the query object).

  JavaScript numbers are modelled as \<^typ>\<open>int\<close>: row ids, tag references and epoch
  seconds are integers far below \<open>2 ^ 53\<close>, where the arithmetic of doubles is exact.
  \<^verbatim>\<open>undefined\<close> and \<^verbatim>\<open>null\<close> are \<^const>\<open>None\<close>.
\<close>

subsection \<open>JavaScript primitives the module relies on\<close>

text \<open>Truthiness of a string: only the empty string is falsy.\<close>

definition truthy_string :: "string \<Rightarrow> bool" where
  "truthy_string s = (s \<noteq> [])"

text \<open>
  Truthiness of an optional string, as tested by \<^verbatim>\<open>if (query.id)\<close> and
  \<^verbatim>\<open>itemId ? ... : null\<close>: \<^verbatim>\<open>undefined\<close> and the empty string are falsy.
\<close>

definition truthy :: "string option \<Rightarrow> bool" where
  "truthy v = (case v of None \<Rightarrow> False | Some s \<Rightarrow> truthy_string s)"

text \<open>
  \<^verbatim>\<open>String.prototype.split\<close> with a one-character separator: every occurrence of the
  separator ends a token, empty tokens are kept, and the empty string splits into one
  empty token.
\<close>

fun split :: "char \<Rightarrow> string \<Rightarrow> string list" where
  "split sep [] = [[]]"
| "split sep (c # cs) =
     (if c = sep then [] # split sep cs
      else (case split sep cs of
              [] \<Rightarrow> [[c]]
            | w # ws \<Rightarrow> (c # w) # ws))"

text \<open>
  \<^verbatim>\<open>new Map(entries)\<close> sets the entries in order, so a later entry with the same key
  replaces an earlier one.
\<close>

definition new_Map :: "('k \<times> 'v) list \<Rightarrow> ('k \<rightharpoonup> 'v)" where
  "new_Map entries = foldl (\<lambda>m (k, v). m(k \<mapsto> v)) Map.empty entries"

subsection \<open>The built-in \<^verbatim>\<open>Date\<close>, after the ECMAScript language specification\<close>

text \<open>
  \<^verbatim>\<open>toISOTimestamp\<close> is \<^verbatim>\<open>new Date(timestamp * 1000).toJSON()\<close>. The functions below
  are the abstract operations of the ECMAScript specification on time values
  (milliseconds since the epoch, as integers).
\<close>

definition msPerDay :: int where "msPerDay = 86400000"
definition msPerHour :: int where "msPerHour = 3600000"
definition msPerMinute :: int where "msPerMinute = 60000"
definition msPerSecond :: int where "msPerSecond = 1000"

definition Day :: "int \<Rightarrow> int" where
  "Day t = t div msPerDay"

definition TimeWithinDay :: "int \<Rightarrow> int" where
  "TimeWithinDay t = t mod msPerDay"

definition DaysInYear :: "int \<Rightarrow> int" where
  "DaysInYear y =
     (if y mod 4 \<noteq> 0 then 365
      else if y mod 100 \<noteq> 0 then 366
      else if y mod 400 \<noteq> 0 then 365
      else 366)"

definition DayFromYear :: "int \<Rightarrow> int" where
  "DayFromYear y =
     365 * (y - 1970) + (y - 1969) div 4 - (y - 1901) div 100 + (y - 1601) div 400"

definition TimeFromYear :: "int \<Rightarrow> int" where
  "TimeFromYear y = msPerDay * DayFromYear y"

text \<open>
  The specification defines \<^verbatim>\<open>YearFromTime(t)\<close> as the largest \<open>y\<close> with
  \<open>TimeFromYear y \<le> t\<close>. The computation below estimates the year from the mean length
  of a Gregorian year and moves it by at most one; \<open>YearFromTime_largest\<close> proves that
  it is the year of the specification.
\<close>

definition YearFromTime :: "int \<Rightarrow> int" where
  "YearFromTime t =
     (let y0 = 1970 + (Day t * 10000) div 3652425
      in if t < TimeFromYear y0 then y0 - 1
         else if TimeFromYear (y0 + 1) \<le> t then y0 + 1
         else y0)"

definition InLeapYear :: "int \<Rightarrow> int" where
  "InLeapYear t = (if DaysInYear (YearFromTime t) = 366 then 1 else 0)"

definition DayWithinYear :: "int \<Rightarrow> int" where
  "DayWithinYear t = Day t - DayFromYear (YearFromTime t)"

definition MonthFromTime :: "int \<Rightarrow> int" where
  "MonthFromTime t =
     (let d = DayWithinYear t; l = InLeapYear t
      in if d < 31 then 0
         else if d < 59 + l then 1
         else if d < 90 + l then 2
         else if d < 120 + l then 3
         else if d < 151 + l then 4
         else if d < 181 + l then 5
         else if d < 212 + l then 6
         else if d < 243 + l then 7
         else if d < 273 + l then 8
         else if d < 304 + l then 9
         else if d < 334 + l then 10
         else 11)"

definition DateFromTime :: "int \<Rightarrow> int" where
  "DateFromTime t =
     (let d = DayWithinYear t; l = InLeapYear t; m = MonthFromTime t
      in if m = 0 then d + 1
         else if m = 1 then d - 30
         else if m = 2 then d - 58 - l
         else if m = 3 then d - 89 - l
         else if m = 4 then d - 119 - l
         else if m = 5 then d - 150 - l
         else if m = 6 then d - 180 - l
         else if m = 7 then d - 211 - l
         else if m = 8 then d - 242 - l
         else if m = 9 then d - 272 - l
         else if m = 10 then d - 303 - l
         else d - 333 - l)"

definition HourFromTime :: "int \<Rightarrow> int" where
  "HourFromTime t = (t div msPerHour) mod 24"

definition MinFromTime :: "int \<Rightarrow> int" where
  "MinFromTime t = (t div msPerMinute) mod 60"

definition SecFromTime :: "int \<Rightarrow> int" where
  "SecFromTime t = (t div msPerSecond) mod 60"

definition msFromTime :: "int \<Rightarrow> int" where
  "msFromTime t = t mod msPerSecond"

text \<open>Decimal digits, most significant first, padded with zeros to a fixed width.\<close>

definition digit_char :: "int \<Rightarrow> char" where
  "digit_char d = char_of (48 + d)"

fun pad :: "nat \<Rightarrow> int \<Rightarrow> string" where
  "pad 0 n = []"
| "pad (Suc k) n = pad k (n div 10) @ [digit_char (n mod 10)]"

text \<open>
  \<^verbatim>\<open>Date.prototype.toISOString\<close> on a valid time value: years 0 to 9999 are written with
  four digits, any other year with a sign and six digits.
\<close>

definition year_string :: "int \<Rightarrow> string" where
  "year_string y =
     (if 0 \<le> y \<and> y \<le> 9999 then pad 4 y
      else if y < 0 then CHR ''-'' # pad 6 (- y)
      else CHR ''+'' # pad 6 y)"

definition toISOString :: "int \<Rightarrow> string" where
  "toISOString t =
     year_string (YearFromTime t) @ ''-'' @ pad 2 (MonthFromTime t + 1) @ ''-''
       @ pad 2 (DateFromTime t) @ ''T'' @ pad 2 (HourFromTime t) @ '':''
       @ pad 2 (MinFromTime t) @ '':'' @ pad 2 (SecFromTime t) @ ''.''
       @ pad 3 (msFromTime t) @ ''Z''"

text \<open>
  \<^verbatim>\<open>new Date(v)\<close> clips the time value: beyond \<open>8.64 * 10 ^ 15\<close> milliseconds on either
  side of the epoch the date is invalid, and \<^verbatim>\<open>toJSON\<close> of an invalid date is
  \<^verbatim>\<open>null\<close>.
\<close>

definition TimeClip :: "int \<Rightarrow> int option" where
  "TimeClip v = (if \<bar>v\<bar> > 8640000000000000 then None else Some v)"

definition toJSON :: "int option \<Rightarrow> string option" where
  "toJSON tv = (case tv of None \<Rightarrow> None | Some t \<Rightarrow> Some (toISOString t))"

text \<open>The module's own \<^verbatim>\<open>toISOTimestamp\<close> (lines 253 to 255).\<close>

definition toISOTimestamp :: "int \<Rightarrow> string option" where
  "toISOTimestamp timestamp = toJSON (TimeClip (timestamp * 1000))"

subsection \<open>Rows of the remote tables and the public shapes\<close>

text \<open>The interfaces \<^verbatim>\<open>GristItem\<close> and \<^verbatim>\<open>GristTag\<close> (lines 179 to 197).\<close>

record GristItem =
  gi_id :: int
  gi_manualSort :: int
  gi_ID2 :: string
  gi_Name :: string
  gi_Description :: string
  gi_Tag :: int
  gi_CreatedAt :: int
  gi_UpdatedAt :: int

record GristTag =
  gt_id :: int
  gt_manualSort :: int
  gt_ID2 :: string
  gt_CreatedAt :: int
  gt_UpdatedAt :: int

text \<open>The enums \<^verbatim>\<open>TagType\<close> and \<^verbatim>\<open>PossessionType\<close> (lines 215 to 224).\<close>

datatype TagType = ITEM | CONTAINER

datatype PossessionType = UNSPECIFIED | USER | CONTAINER_POSSESSION

record Possession =
  ps_type :: PossessionType
  ps_id :: string

text \<open>
  The interfaces \<^verbatim>\<open>Item\<close> and \<^verbatim>\<open>Tag\<close> (lines 226 to 250). The optional fields
  \<^verbatim>\<open>imageUrl\<close> and \<^verbatim>\<open>tags\<close> are options; the timestamps are options because
  \<^verbatim>\<open>toJSON\<close> yields \<^verbatim>\<open>null\<close> for an invalid date.
\<close>

record Item =
  it_id :: string
  it_name :: string
  it_description :: string
  it_notes :: string
  it_imageUrl :: "string option"
  it_type :: TagType
  it_tags :: "string list option"
  it_possession :: Possession
  it_createdAt :: "string option"
  it_updatedAt :: "string option"

record Link =
  ln_id :: string
  ln_type :: TagType

record Tag =
  tg_id :: string
  tg_link :: "Link option"
  tg_createdAt :: "string option"
  tg_updatedAt :: "string option"

subsection \<open>The class \<^verbatim>\<open>Filters\<close> (lines 257 to 274)\<close>

record 'a Filters =
  criteria :: "('a \<Rightarrow> bool) list"

definition new_Filters :: "'a Filters" where
  "new_Filters = \<lparr>criteria = []\<rparr>"

definition addCriteria :: "'a Filters \<Rightarrow> ('a \<Rightarrow> bool) \<Rightarrow> 'a Filters" where
  "addCriteria f c = f\<lparr>criteria := criteria f @ [c]\<rparr>"

definition match :: "'a Filters \<Rightarrow> 'a \<Rightarrow> bool" where
  "match f item = list_all (\<lambda>c. c item) (criteria f)"

text \<open>A getter returns one string or an array of strings.\<close>

datatype getter_result = Single string | Many "string list"

text \<open>
  \<^verbatim>\<open>Filters.in(values, getter)\<close>: the values become a set; an entity passes when some
  string the getter yields is in the set.
\<close>

definition Filters_in :: "string list \<Rightarrow> ('a \<Rightarrow> getter_result) \<Rightarrow> 'a \<Rightarrow> bool" where
  "Filters_in values getter =
     (let s = set values
      in (\<lambda>item.
            let result = getter item;
                vs = (case result of Many r \<Rightarrow> r | Single r \<Rightarrow> [r])
            in list_ex (\<lambda>value. value \<in> s) vs))"

subsection \<open>The handler of \<^verbatim>\<open>GET /items\<close> (lines 286 to 323)\<close>

record items_query =
  q_id :: "string option"
  q_tag :: "string option"

text \<open>The filters the handler builds from the query (lines 292 to 300).\<close>

definition items_filters :: "items_query \<Rightarrow> Item Filters" where
  "items_filters query =
     (let filters = new_Filters;
          filters = (if truthy (q_id query)
                     then addCriteria filters
                            (Filters_in (split CHR '','' (the (q_id query)))
                               (\<lambda>item. Single (it_id item)))
                     else filters);
          filters = (if truthy (q_tag query)
                     then addCriteria filters
                            (Filters_in (split CHR '','' (the (q_tag query)))
                               (\<lambda>item. Many (case it_tags item of Some ts \<Rightarrow> ts | None \<Rightarrow> [])))
                     else filters)
      in filters)"

text \<open>The callback of \<^verbatim>\<open>items.map\<close> (lines 303 to 321).\<close>

definition mapItem :: "(int \<rightharpoonup> GristTag) \<Rightarrow> GristItem \<Rightarrow> Item" where
  "mapItem tagMap item =
     (let tag = tagMap (gi_Tag item);
          itemTags = (case tag of Some tg \<Rightarrow> [gt_ID2 tg] | None \<Rightarrow> [])
      in \<lparr>it_id = gi_ID2 item,
          it_name = gi_Name item,
          it_description = gi_Description item,
          it_notes = [],
          it_imageUrl = None,
          it_type = ITEM,
          it_tags = Some itemTags,
          it_possession = \<lparr>ps_type = UNSPECIFIED, ps_id = []\<rparr>,
          it_createdAt = toISOTimestamp (gi_CreatedAt item),
          it_updatedAt = toISOTimestamp (gi_UpdatedAt item)\<rparr>)"

text \<open>The handler's body after the two tables have arrived.\<close>

definition items_response :: "items_query \<Rightarrow> GristItem list \<Rightarrow> GristTag list \<Rightarrow> Item list" where
  "items_response query items tags =
     (let tagMap = new_Map (map (\<lambda>tag. (gt_id tag, tag)) tags);
          filters = items_filters query
      in filter (\<lambda>item. match filters item) (map (mapItem tagMap) items))"

subsection \<open>The handler of \<^verbatim>\<open>GET /tags\<close> (lines 344 to 368)\<close>

record tags_query =
  tq_id :: "string option"

definition tags_filters :: "tags_query \<Rightarrow> Tag Filters" where
  "tags_filters query =
     (let filters = new_Filters
      in if truthy (tq_id query)
         then addCriteria filters
                (Filters_in (split CHR '','' (the (tq_id query))) (\<lambda>tag. Single (tg_id tag)))
         else filters)"

definition itemByTag :: "GristItem list \<Rightarrow> (int \<rightharpoonup> string)" where
  "itemByTag items = new_Map (map (\<lambda>item. (gi_Tag item, gi_ID2 item)) items)"

text \<open>The callback of \<^verbatim>\<open>tags.map\<close> (lines 358 to 366).\<close>

definition mapTag :: "(int \<rightharpoonup> string) \<Rightarrow> GristTag \<Rightarrow> Tag" where
  "mapTag byTag tag =
     (let itemId = byTag (gt_id tag)
      in \<lparr>tg_id = gt_ID2 tag,
          tg_link = (if truthy itemId then Some \<lparr>ln_id = the itemId, ln_type = ITEM\<rparr> else None),
          tg_createdAt = toISOTimestamp (gt_CreatedAt tag),
          tg_updatedAt = toISOTimestamp (gt_UpdatedAt tag)\<rparr>)"

definition tags_response :: "tags_query \<Rightarrow> GristItem list \<Rightarrow> GristTag list \<Rightarrow> Tag list" where
  "tags_response query items tags =
     (let byTag = itemByTag items;
          filters = tags_filters query
      in filter (\<lambda>tag. match filters tag) (map (mapTag byTag) tags))"

subsection \<open>Fetching the two tables\<close>

text \<open>
  Both handlers start with \<^verbatim>\<open>await Promise.all([fetchItems(), fetchTags()])\<close>. A fetch
  either yields the rows or is rejected with an error; \<^verbatim>\<open>Promise.all\<close> is rejected
  with the reason of the promise that is rejected first, which the network decides:
  the order is a parameter of the model.
\<close>

datatype fetch_error = RemoteError string

datatype settle_order = ItemsFirst | TagsFirst

definition Promise_all ::
  "settle_order \<Rightarrow> fetch_error + 'a \<Rightarrow> fetch_error + 'b \<Rightarrow> fetch_error + ('a \<times> 'b)" where
  "Promise_all order p1 p2 =
     (case (p1, p2) of
        (Inr a, Inr b) \<Rightarrow> Inr (a, b)
      | (Inl e, Inr b) \<Rightarrow> Inl e
      | (Inr a, Inl e) \<Rightarrow> Inl e
      | (Inl e1, Inl e2) \<Rightarrow> (case order of ItemsFirst \<Rightarrow> Inl e1 | TagsFirst \<Rightarrow> Inl e2))"

definition get_items ::
  "settle_order \<Rightarrow> fetch_error + GristItem list \<Rightarrow> fetch_error + GristTag list
     \<Rightarrow> items_query \<Rightarrow> fetch_error + Item list" where
  "get_items order fetchItems fetchTags query =
     (case Promise_all order fetchItems fetchTags of
        Inl e \<Rightarrow> Inl e
      | Inr (items, tags) \<Rightarrow> Inr (items_response query items tags))"

definition get_tags ::
  "settle_order \<Rightarrow> fetch_error + GristItem list \<Rightarrow> fetch_error + GristTag list
     \<Rightarrow> tags_query \<Rightarrow> fetch_error + Tag list" where
  "get_tags order fetchItems fetchTags query =
     (case Promise_all order fetchItems fetchTags of
        Inl e \<Rightarrow> Inl e
      | Inr (items, tags) \<Rightarrow> Inr (tags_response query items tags))"

subsection \<open>Rows of the specification's concrete scenario\<close>

text \<open>
  The specification's scenario gives the item row \<^verbatim>\<open>{id:1, ID2:"A", Tag:10,
  CreatedAt:1000, UpdatedAt:1000}\<close> and the tag row \<^verbatim>\<open>{id:10, ID2:"T1", CreatedAt:900,
  UpdatedAt:900}\<close>; the columns it leaves open are filled in here.
\<close>

definition item_A :: GristItem where
  "item_A = \<lparr>gi_id = 1, gi_manualSort = 1, gi_ID2 = ''A'', gi_Name = ''Camera'',
     gi_Description = ''A camera'', gi_Tag = 10, gi_CreatedAt = 1000, gi_UpdatedAt = 1000\<rparr>"

definition tag_T1 :: GristTag where
  "tag_T1 = \<lparr>gt_id = 10, gt_manualSort = 1, gt_ID2 = ''T1'', gt_CreatedAt = 900,
     gt_UpdatedAt = 900\<rparr>"

subsection \<open>The instant an ISO-8601 string denotes\<close>

text \<open>
  The reading of a timestamp \<^verbatim>\<open>YYYY-MM-DDTHH:mm:ss.sssZ\<close>, written from ISO 8601 and
  not from the code: the fields are decimal numbers, the date is a date of the
  proleptic Gregorian calendar, the time is UTC, and the instant is counted in
  milliseconds from 1970-01-01T00:00:00.000Z.
\<close>

definition digit_value :: "char \<Rightarrow> int option" where
  "digit_value c =
     (let n = (of_char c :: int) in if 48 \<le> n \<and> n \<le> 57 then Some (n - 48) else None)"

fun decimal_from :: "int \<Rightarrow> string \<Rightarrow> int option" where
  "decimal_from acc [] = Some acc"
| "decimal_from acc (c # cs) =
     (case digit_value c of None \<Rightarrow> None | Some d \<Rightarrow> decimal_from (10 * acc + d) cs)"

definition decimal :: "string \<Rightarrow> int option" where
  "decimal s = (if s = [] then None else decimal_from 0 s)"

definition is_leap_year :: "int \<Rightarrow> bool" where
  "is_leap_year y = (y mod 4 = 0 \<and> (y mod 100 \<noteq> 0 \<or> y mod 400 = 0))"

definition days_in_month :: "int \<Rightarrow> int \<Rightarrow> int" where
  "days_in_month y m =
     (if m = 2 then (if is_leap_year y then 29 else 28)
      else if m = 4 \<or> m = 6 \<or> m = 9 \<or> m = 11 then 30
      else 31)"

text \<open>Days of the year before the first day of month \<open>m\<close> (1 to 12).\<close>

fun days_before_month :: "int \<Rightarrow> nat \<Rightarrow> int" where
  "days_before_month y 0 = 0"
| "days_before_month y (Suc k) = days_before_month y k + days_in_month y (int (Suc k))"

text \<open>Days from 1970-01-01 to the first day of year \<open>y\<close>.\<close>

definition leap_years_before :: "int \<Rightarrow> int" where
  "leap_years_before y = (y - 1) div 4 - (y - 1) div 100 + (y - 1) div 400"

definition days_before_year :: "int \<Rightarrow> int" where
  "days_before_year y = 365 * (y - 1970) + (leap_years_before y - leap_years_before 1970)"

definition civil_instant :: "int \<Rightarrow> int \<Rightarrow> int \<Rightarrow> int \<Rightarrow> int \<Rightarrow> int \<Rightarrow> int \<Rightarrow> int" where
  "civil_instant y m d h mi s ms =
     (days_before_year y + days_before_month y (nat (m - 1)) + (d - 1)) * 86400000
       + h * 3600000 + mi * 60000 + s * 1000 + ms"

definition iso_instant :: "string \<Rightarrow> int option" where
  "iso_instant s =
     (if length s = 24 \<and> s ! 4 = CHR ''-'' \<and> s ! 7 = CHR ''-'' \<and> s ! 10 = CHR ''T''
         \<and> s ! 13 = CHR '':'' \<and> s ! 16 = CHR '':'' \<and> s ! 19 = CHR ''.'' \<and> s ! 23 = CHR ''Z''
      then
        (case decimal (take 4 s) of None \<Rightarrow> None | Some y \<Rightarrow>
         case decimal (take 2 (drop 5 s)) of None \<Rightarrow> None | Some m \<Rightarrow>
         case decimal (take 2 (drop 8 s)) of None \<Rightarrow> None | Some d \<Rightarrow>
         case decimal (take 2 (drop 11 s)) of None \<Rightarrow> None | Some h \<Rightarrow>
         case decimal (take 2 (drop 14 s)) of None \<Rightarrow> None | Some mi \<Rightarrow>
         case decimal (take 2 (drop 17 s)) of None \<Rightarrow> None | Some sec \<Rightarrow>
         case decimal (take 3 (drop 20 s)) of None \<Rightarrow> None | Some ms \<Rightarrow>
           if 1 \<le> m \<and> m \<le> 12 \<and> 1 \<le> d \<and> d \<le> days_in_month y m
              \<and> h \<le> 23 \<and> mi \<le> 59 \<and> sec \<le> 59
           then Some (civil_instant y m d h mi sec ms)
           else None)
      else None)"

section \<open>Properties\<close>

subsection \<open>Maps, filters and splitting\<close>

lemma foldl_upd_map_of:
  "foldl (\<lambda>m (k, v). m(k \<mapsto> v)) m xs = m ++ map_of (rev xs)"
  by (induction xs rule: rev_induct) (auto simp: map_add_def fun_eq_iff)

lemma new_Map_map_of: "new_Map xs = map_of (rev xs)"
  by (simp add: new_Map_def foldl_upd_map_of)

lemma new_Map_eq_None: "(new_Map xs k = None) = (k \<notin> fst ` set xs)"
  by (simp add: new_Map_map_of map_of_eq_None_iff)

text \<open>A map built from a list of rows holds, for each key, the last row with that key.\<close>

lemma new_Map_last:
  "new_Map (map (\<lambda>x. (f x, g x)) xs) k =
     (case filter (\<lambda>x. f x = k) xs of [] \<Rightarrow> None | rs \<Rightarrow> Some (g (last rs)))"
proof (induction xs rule: rev_induct)
  case Nil
  show ?case by (simp add: new_Map_map_of)
next
  case (snoc x xs)
  then show ?case
    by (auto simp: new_Map_map_of split: list.splits)
qed

lemma match_new_Filters: "match new_Filters x"
  by (simp add: match_def new_Filters_def)

lemma match_addCriteria: "match (addCriteria f c) x = (match f x \<and> c x)"
  by (simp add: match_def addCriteria_def)

lemma Filters_in_Single: "Filters_in vs (\<lambda>x. Single (g x)) x = (g x \<in> set vs)"
  by (simp add: Filters_in_def)

lemma Filters_in_Many: "Filters_in vs (\<lambda>x. Many (g x)) x = (\<exists>t \<in> set (g x). t \<in> set vs)"
  by (simp add: Filters_in_def list_ex_iff)

lemma split_replicate: "split c (replicate n c) = replicate (Suc n) []"
  by (induction n) simp_all

lemma split_no_sep: "c \<notin> set s \<Longrightarrow> split c s = [s]"
  by (induction s) auto

lemma split_nonempty: "split c s \<noteq> []"
  by (induction s) (auto split: list.splits)

lemma split_snoc: "split c (s @ [c]) = split c s @ [[]]"
  by (induction s) (auto split: list.splits simp: split_nonempty)

lemma split_snoc_sep: "[] \<in> set (split c (s @ [c]))"
  by (simp add: split_snoc)

lemma toISOTimestamp_900: "toISOTimestamp 900 = Some ''1970-01-01T00:15:00.000Z''"
  by code_simp

lemma tg_link_mapTag:
  "tg_link (mapTag (itemByTag items) tag) =
     (case filter (\<lambda>i. gi_Tag i = gt_id tag) items of
        [] \<Rightarrow> None
      | rs \<Rightarrow> if gi_ID2 (last rs) = [] then None
              else Some \<lparr>ln_id = gi_ID2 (last rs), ln_type = ITEM\<rparr>)"
  by (simp add: mapTag_def itemByTag_def Let_def new_Map_last truthy_def truthy_string_def
      split: list.splits)

lemma truthy_Some: "truthy (Some s) = (s \<noteq> [])"
  by (simp add: truthy_def truthy_string_def)

lemma truthy_None: "truthy None = False"
  by (simp add: truthy_def)

lemma match_items_filters:
  "match (items_filters q) x =
     ((truthy (q_id q) \<longrightarrow> it_id x \<in> set (split CHR '','' (the (q_id q)))) \<and>
      (truthy (q_tag q) \<longrightarrow>
         (\<exists>t \<in> set (case it_tags x of Some ts \<Rightarrow> ts | None \<Rightarrow> []).
            t \<in> set (split CHR '','' (the (q_tag q))))))"
  by (simp add: items_filters_def Let_def match_addCriteria match_new_Filters
      Filters_in_Single Filters_in_Many)

lemma match_tags_filters:
  "match (tags_filters q) x =
     (truthy (tq_id q) \<longrightarrow> tg_id x \<in> set (split CHR '','' (the (tq_id q))))"
  by (simp add: tags_filters_def Let_def match_addCriteria match_new_Filters Filters_in_Single)

lemma items_response_eq:
  "items_response q items tags =
     filter (\<lambda>x. match (items_filters q) x)
       (map (mapItem (new_Map (map (\<lambda>tag. (gt_id tag, tag)) tags))) items)"
  by (simp add: items_response_def Let_def)

lemma tags_response_eq:
  "tags_response q items tags =
     filter (\<lambda>x. match (tags_filters q) x) (map (mapTag (itemByTag items)) tags)"
  by (simp add: tags_response_def Let_def)

lemma it_id_mapItem: "it_id (mapItem m i) = gi_ID2 i"
  by (simp add: mapItem_def Let_def)

lemma tg_id_mapTag: "tg_id (mapTag m t) = gt_ID2 t"
  by (simp add: mapTag_def Let_def)

lemma it_tags_mapItem:
  "it_tags (mapItem m i) = Some (case m (gi_Tag i) of Some tg \<Rightarrow> [gt_ID2 tg] | None \<Rightarrow> [])"
  by (simp add: mapItem_def Let_def)

lemma filter_unique:
  "distinct (map f xs) \<Longrightarrow> x \<in> set xs \<Longrightarrow> filter (\<lambda>y. f y = f x) xs = [x]"
proof (induction xs)
  case Nil
  then show ?case by simp
next
  case (Cons a xs)
  show ?case
  proof (cases "a = x")
    case True
    with Cons.prems have "f x \<notin> f ` set xs" by simp
    then have "\<forall>y \<in> set xs. f y \<noteq> f x" by (metis imageI)
    then have "filter (\<lambda>y. f y = f x) xs = []" by (simp add: filter_empty_conv)
    with True show ?thesis by simp
  next
    case False
    with Cons.prems have "x \<in> set xs" "f a \<noteq> f x" by auto
    with Cons show ?thesis by simp
  qed
qed

subsection \<open>Requests without query parameters\<close>

text \<open>
  Claim C7. A \<^verbatim>\<open>GET /items\<close> request with no query parameters answers with every
  mapped item, in row order and unfiltered, so the response has as many entries as
  there are item rows.
\<close>

theorem items_no_query_all:
  "get_items order (Inr items) (Inr tags) \<lparr>q_id = None, q_tag = None\<rparr>
     = Inr (map (mapItem (new_Map (map (\<lambda>tag. (gt_id tag, tag)) tags))) items)
   \<and> length (items_response \<lparr>q_id = None, q_tag = None\<rparr> items tags) = length items"
  by (simp add: get_items_def Promise_all_def items_response_eq match_items_filters truthy_None)

subsection \<open>Items whose tag reference matches no tag row\<close>

text \<open>
  Claim C4. An item row whose \<^verbatim>\<open>Tag\<close> value is the numeric id of no tag row is mapped
  to an item with the empty \<^verbatim>\<open>tags\<close> list. The handler does not fail on such a row:
  once both tables have arrived it answers with a response, whatever the query, and
  without query parameters the response holds the item with its empty list.
\<close>

theorem item_unmatched_tag_empty:
  assumes "item \<in> set items" and "gi_Tag item \<notin> gt_id ` set tags"
  shows "it_tags (mapItem (new_Map (map (\<lambda>tag. (gt_id tag, tag)) tags)) item) = Some []
    \<and> (\<exists>r. get_items order (Inr items) (Inr tags) \<lparr>q_id = None, q_tag = None\<rparr> = Inr r
            \<and> mapItem (new_Map (map (\<lambda>tag. (gt_id tag, tag)) tags)) item \<in> set r)
    \<and> get_items order (Inr items) (Inr tags) query = Inr (items_response query items tags)"
proof -
  have "new_Map (map (\<lambda>tag. (gt_id tag, tag)) tags) (gi_Tag item) = None"
    using assms(2) by (simp add: new_Map_eq_None image_image)
  then have 1: "it_tags (mapItem (new_Map (map (\<lambda>tag. (gt_id tag, tag)) tags)) item) = Some []"
    by (simp add: it_tags_mapItem)
  have 2: "get_items order (Inr items) (Inr tags) q = Inr (items_response q items tags)" for q
    by (simp add: get_items_def Promise_all_def)
  have 3: "mapItem (new_Map (map (\<lambda>tag. (gt_id tag, tag)) tags)) item
      \<in> set (items_response \<lparr>q_id = None, q_tag = None\<rparr> items tags)"
    using assms(1) by (simp add: items_response_eq match_items_filters truthy_None)
  from 1 2 3 show ?thesis by simp
qed

theorem item_unmatched_tag_empty_witness:
  "item_A \<in> set [item_A] \<and> gi_Tag item_A \<notin> gt_id ` set [tag_T1\<lparr>gt_id := 11\<rparr>]
   \<and> it_tags (mapItem (new_Map (map (\<lambda>tag. (gt_id tag, tag)) [tag_T1\<lparr>gt_id := 11\<rparr>])) item_A)
       = Some []
   \<and> get_items ItemsFirst (Inr [item_A]) (Inr [tag_T1\<lparr>gt_id := 11\<rparr>])
        \<lparr>q_id = None, q_tag = None\<rparr>
       = Inr (items_response \<lparr>q_id = None, q_tag = None\<rparr> [item_A] [tag_T1\<lparr>gt_id := 11\<rparr>])"
  using item_unmatched_tag_empty [where item = item_A and items = "[item_A]"
      and tags = "[tag_T1\<lparr>gt_id := 11\<rparr>]" and order = ItemsFirst
      and query = "\<lparr>q_id = None, q_tag = None\<rparr>"]
  by (simp add: item_A_def tag_T1_def)

subsection \<open>Failure of a fetch\<close>

text \<open>
  Claim C8. When the fetch of the items table or of the tags table fails, both handlers
  fail with the error of a failed fetch; no response is built from the table that did
  arrive.
\<close>

theorem fetch_failure_propagates:
  assumes "isl fetchItems \<or> isl fetchTags"
  shows "\<exists>e. get_items order fetchItems fetchTags query = Inl e
            \<and> get_tags order fetchItems fetchTags tquery = Inl e
            \<and> (fetchItems = Inl e \<or> fetchTags = Inl e)"
  using assms
  by (cases fetchItems; cases fetchTags; cases order)
     (simp_all add: get_items_def get_tags_def Promise_all_def)

theorem fetch_failure_propagates_witness:
  "(isl (Inl (RemoteError ''unreachable'') :: fetch_error + GristItem list)
      \<or> isl (Inr [tag_T1] :: fetch_error + GristTag list))
   \<and> get_items ItemsFirst (Inl (RemoteError ''unreachable'')) (Inr [tag_T1])
        \<lparr>q_id = None, q_tag = None\<rparr> = Inl (RemoteError ''unreachable'')
   \<and> get_tags ItemsFirst (Inl (RemoteError ''unreachable'')) (Inr [tag_T1])
        \<lparr>tq_id = None\<rparr> = Inl (RemoteError ''unreachable'')"
  using fetch_failure_propagates [of "Inl (RemoteError ''unreachable'')" "Inr [tag_T1]" ItemsFirst
      "\<lparr>q_id = None, q_tag = None\<rparr>" "\<lparr>tq_id = None\<rparr>"]
  by auto

subsection \<open>The \<^verbatim>\<open>id\<close> filter\<close>

text \<open>
  Claim C1, as the code has it. The handlers test \<^verbatim>\<open>if (query.id)\<close>, so an empty
  \<^verbatim>\<open>id\<close> string adds no predicate. For every non-empty \<^verbatim>\<open>id\<close> query string (and no
  \<^verbatim>\<open>tag\<close> query) the response of \<^verbatim>\<open>GET /items\<close>, and that of \<^verbatim>\<open>GET /tags\<close>, holds
  exactly the mapped entities whose id is one of the tokens of the string split at its
  commas, in row order; with a \<^verbatim>\<open>tag\<close> query, the response holds those entries of the
  response to the \<^verbatim>\<open>tag\<close> query alone whose id is one of the tokens. When the item ids
  are pairwise different and the id of an item
  row is not empty and has no comma in it, querying that id answers with exactly the
  one item mapped from that row.
\<close>

theorem id_filter_nonempty:
  assumes "qid \<noteq> []"
  shows "items_response \<lparr>q_id = Some qid, q_tag = None\<rparr> items tags
           = filter (\<lambda>x. it_id x \<in> set (split CHR '','' qid))
               (map (mapItem (new_Map (map (\<lambda>tag. (gt_id tag, tag)) tags))) items)
       \<and> items_response \<lparr>q_id = Some qid, q_tag = qtag\<rparr> items tags
           = filter (\<lambda>x. it_id x \<in> set (split CHR '','' qid))
               (items_response \<lparr>q_id = None, q_tag = qtag\<rparr> items tags)
       \<and> tags_response \<lparr>tq_id = Some qid\<rparr> items tags
           = filter (\<lambda>x. tg_id x \<in> set (split CHR '','' qid))
               (map (mapTag (itemByTag items)) tags)
       \<and> (distinct (map gi_ID2 items) \<and> i \<in> set items \<and> gi_ID2 i = qid
             \<and> CHR '','' \<notin> set qid
           \<longrightarrow> items_response \<lparr>q_id = Some qid, q_tag = None\<rparr> items tags
                 = [mapItem (new_Map (map (\<lambda>tag. (gt_id tag, tag)) tags)) i])"
proof -
  let ?m = "new_Map (map (\<lambda>tag. (gt_id tag, tag)) tags)"
  have items: "items_response \<lparr>q_id = Some qid, q_tag = None\<rparr> items tags
      = filter (\<lambda>x. it_id x \<in> set (split CHR '','' qid)) (map (mapItem ?m) items)"
    using assms by (simp add: items_response_eq match_items_filters truthy_Some truthy_None)
  have both: "items_response \<lparr>q_id = Some qid, q_tag = qtag\<rparr> items tags
      = filter (\<lambda>x. it_id x \<in> set (split CHR '','' qid))
          (items_response \<lparr>q_id = None, q_tag = qtag\<rparr> items tags)"
    using assms
    by (simp add: items_response_eq match_items_filters truthy_Some truthy_None conj_commute)
  have tags: "tags_response \<lparr>tq_id = Some qid\<rparr> items tags
      = filter (\<lambda>x. tg_id x \<in> set (split CHR '','' qid)) (map (mapTag (itemByTag items)) tags)"
    using assms by (simp add: tags_response_eq match_tags_filters truthy_Some)
  have one: "items_response \<lparr>q_id = Some qid, q_tag = None\<rparr> items tags = [mapItem ?m i]"
    if d: "distinct (map gi_ID2 items)" and i: "i \<in> set items" and q: "gi_ID2 i = qid"
      and c: "CHR '','' \<notin> set qid"
  proof -
    have "filter (\<lambda>x. it_id x \<in> set (split CHR '','' qid)) (map (mapItem ?m) items)
        = map (mapItem ?m) (filter (\<lambda>y. gi_ID2 y = gi_ID2 i) items)"
      using c q by (simp add: filter_map comp_def it_id_mapItem split_no_sep)
    also have "\<dots> = [mapItem ?m i]"
      using filter_unique [OF d i] by simp
    finally show ?thesis using items by simp
  qed
  from items both tags one show ?thesis by blast
qed

theorem id_filter_nonempty_witness:
  "''A'' \<noteq> [] \<and> distinct (map gi_ID2 [item_A, item_A\<lparr>gi_ID2 := ''B''\<rparr>])
   \<and> item_A \<in> set [item_A, item_A\<lparr>gi_ID2 := ''B''\<rparr>] \<and> gi_ID2 item_A = ''A''
   \<and> CHR '','' \<notin> set ''A''
   \<and> items_response \<lparr>q_id = Some ''A'', q_tag = None\<rparr> [item_A, item_A\<lparr>gi_ID2 := ''B''\<rparr>] [tag_T1]
       = [mapItem (new_Map (map (\<lambda>tag. (gt_id tag, tag)) [tag_T1])) item_A]"
proof -
  have h: "''A'' \<noteq> []" by simp
  have pre: "distinct (map gi_ID2 [item_A, item_A\<lparr>gi_ID2 := ''B''\<rparr>])
      \<and> item_A \<in> set [item_A, item_A\<lparr>gi_ID2 := ''B''\<rparr>] \<and> gi_ID2 item_A = ''A''
      \<and> CHR '','' \<notin> set ''A''"
    by (simp add: item_A_def)
  from id_filter_nonempty [OF h, where items = "[item_A, item_A\<lparr>gi_ID2 := ''B''\<rparr>]"
      and i = item_A and tags = "[tag_T1]" and qtag = None] pre h
  show ?thesis by blast
qed

text \<open>
  The claim as written fails for the empty query string, which is present and yet
  filters nothing (here the item \<^verbatim>\<open>A\<close> is returned although \<^verbatim>\<open>A\<close> is no token of
  the string), and for an id with a comma in it, which its own query does not find.
\<close>

theorem id_filter_counterexample:
  "map it_id (items_response \<lparr>q_id = Some [], q_tag = None\<rparr> [item_A] [tag_T1]) = [''A'']
   \<and> ''A'' \<notin> set (split CHR '','' [])
   \<and> items_response \<lparr>q_id = Some ''a,b'', q_tag = None\<rparr> [item_A\<lparr>gi_ID2 := ''a,b''\<rparr>] [tag_T1] = []"
  by (simp add: items_response_eq match_items_filters truthy_Some truthy_None it_id_mapItem
      item_A_def)

subsection \<open>The \<^verbatim>\<open>tag\<close> filter\<close>

text \<open>
  Claim C2, as the code has it. For every non-empty \<^verbatim>\<open>tag\<close> query string the response
  of \<^verbatim>\<open>GET /items\<close> holds exactly the mapped items with at least one member of their
  \<^verbatim>\<open>tags\<close> list among the tokens of the string split at its commas and, when the
  \<^verbatim>\<open>id\<close> query is present and not empty, with their id among the tokens of that
  string as well.
\<close>

theorem tag_filter_nonempty:
  assumes "qtag \<noteq> []"
  shows "items_response \<lparr>q_id = qid, q_tag = Some qtag\<rparr> items tags
           = filter (\<lambda>x. (\<exists>t \<in> set (case it_tags x of Some ts \<Rightarrow> ts | None \<Rightarrow> []).
                             t \<in> set (split CHR '','' qtag))
                        \<and> (truthy qid \<longrightarrow> it_id x \<in> set (split CHR '','' (the qid))))
               (map (mapItem (new_Map (map (\<lambda>tag. (gt_id tag, tag)) tags))) items)"
  using assms
  by (simp add: items_response_eq match_items_filters truthy_Some conj_commute)

theorem tag_filter_nonempty_witness:
  "''T2,T1'' \<noteq> []
   \<and> items_response \<lparr>q_id = Some ''A'', q_tag = Some ''T2,T1''\<rparr>
        [item_A, item_A\<lparr>gi_ID2 := ''B''\<rparr>, item_A\<lparr>gi_Tag := 11\<rparr>] [tag_T1]
       = [mapItem (new_Map (map (\<lambda>tag. (gt_id tag, tag)) [tag_T1])) item_A]"
  using tag_filter_nonempty [of "''T2,T1''" "Some ''A''"
      "[item_A, item_A\<lparr>gi_ID2 := ''B''\<rparr>, item_A\<lparr>gi_Tag := 11\<rparr>]" "[tag_T1]"]
  by (simp add: item_A_def tag_T1_def it_tags_mapItem it_id_mapItem truthy_Some new_Map_map_of)

text \<open>
  With the empty \<^verbatim>\<open>tag\<close> string, which is present, an item without any tag is
  returned.
\<close>

theorem tag_filter_counterexample:
  "map it_id (items_response \<lparr>q_id = None, q_tag = Some []\<rparr> [item_A] []) = [''A'']
   \<and> it_tags (mapItem (new_Map []) item_A) = Some []"
  by (simp add: items_response_eq match_items_filters truthy_Some truthy_None it_id_mapItem
      it_tags_mapItem new_Map_map_of item_A_def)

subsection \<open>Empty tokens\<close>

text \<open>
  Claim C5, as the code has it. A query value is split at every comma and empty tokens
  are kept. A value made of commas only splits into empty tokens, so its filter set is
  the set of the empty string, and the response holds exactly the entities whose id is
  the empty string; a value that ends in a comma has the empty token in its set. The
  empty query string is falsy and adds no predicate, so every entity passes.
\<close>

theorem empty_tokens_kept:
  "split CHR '','' (replicate (Suc n) CHR '','') = replicate (Suc (Suc n)) []
   \<and> [] \<in> set (split CHR '','' (s @ '',''))
   \<and> tags_response \<lparr>tq_id = Some (replicate (Suc n) CHR '','')\<rparr> items tags
       = filter (\<lambda>x. tg_id x = []) (map (mapTag (itemByTag items)) tags)
   \<and> items_response \<lparr>q_id = Some (replicate (Suc n) CHR '',''), q_tag = None\<rparr> items tags
       = filter (\<lambda>x. it_id x = [])
           (map (mapItem (new_Map (map (\<lambda>tag. (gt_id tag, tag)) tags))) items)
   \<and> tags_response \<lparr>tq_id = Some []\<rparr> items tags = map (mapTag (itemByTag items)) tags
   \<and> items_response \<lparr>q_id = Some [], q_tag = Some []\<rparr> items tags
       = map (mapItem (new_Map (map (\<lambda>tag. (gt_id tag, tag)) tags))) items"
proof -
  have s: "set (split CHR '','' (replicate (Suc n) CHR '','')) = {[]}"
    by (simp only: split_replicate) auto
  have 1: "split CHR '','' (replicate (Suc n) CHR '','') = replicate (Suc (Suc n)) []"
    by (rule split_replicate)
  have 2: "[] \<in> set (split CHR '','' (s @ '',''))"
    by (rule split_snoc_sep)
  have 3: "tags_response \<lparr>tq_id = Some (replicate (Suc n) CHR '','')\<rparr> items tags
       = filter (\<lambda>x. tg_id x = []) (map (mapTag (itemByTag items)) tags)"
    by (simp only: tags_response_eq match_tags_filters truthy_Some tags_query.simps option.sel s)
       simp
  have 4: "items_response \<lparr>q_id = Some (replicate (Suc n) CHR '',''), q_tag = None\<rparr> items tags
       = filter (\<lambda>x. it_id x = [])
           (map (mapItem (new_Map (map (\<lambda>tag. (gt_id tag, tag)) tags))) items)"
    by (simp only: items_response_eq match_items_filters truthy_Some truthy_None
        items_query.simps option.sel s) simp
  have 5: "tags_response \<lparr>tq_id = Some []\<rparr> items tags = map (mapTag (itemByTag items)) tags"
    by (simp add: tags_response_eq match_tags_filters truthy_Some)
  have 6: "items_response \<lparr>q_id = Some [], q_tag = Some []\<rparr> items tags
       = map (mapItem (new_Map (map (\<lambda>tag. (gt_id tag, tag)) tags))) items"
    by (simp add: items_response_eq match_items_filters truthy_Some)
  from 1 2 3 4 5 6 show ?thesis by blast
qed

text \<open>
  The query value \<^verbatim>\<open>,\<close> matches a tag whose id is the empty string.
\<close>

theorem empty_token_counterexample:
  "split CHR '','' '','' = [[], []]
   \<and> map tg_id (tags_response \<lparr>tq_id = Some '',''\<rparr> [] [tag_T1\<lparr>gt_ID2 := []\<rparr>]) = [[]]"
  by (simp add: tags_response_eq match_tags_filters truthy_Some tg_id_mapTag tag_T1_def)

subsection \<open>The link of a tag\<close>

text \<open>
  Claim C3, as the code has it. The link of a produced tag is null when no item row's
  \<^verbatim>\<open>Tag\<close> column equals the tag's numeric id. Otherwise the last item row that
  refers to the tag decides: the link is null when that row's \<^verbatim>\<open>ID2\<close> is the empty
  string (the handler tests \<^verbatim>\<open>itemId ? ... : null\<close>), and the object with that
  \<^verbatim>\<open>ID2\<close> as id and the type \<^verbatim>\<open>ITEM\<close> when it is not. On the rows of the
  specification's scenario \<^verbatim>\<open>GET /tags\<close> yields the tag \<^verbatim>\<open>T1\<close> linked to the item
  \<^verbatim>\<open>A\<close>.
\<close>

theorem tag_link_null_or_last:
  "(gt_id tag \<notin> gi_Tag ` set items \<longrightarrow> tg_link (mapTag (itemByTag items) tag) = None)
   \<and> (gt_id tag \<in> gi_Tag ` set items \<longrightarrow>
        tg_link (mapTag (itemByTag items) tag)
          = (let r = last (filter (\<lambda>i. gi_Tag i = gt_id tag) items)
             in if gi_ID2 r = [] then None else Some \<lparr>ln_id = gi_ID2 r, ln_type = ITEM\<rparr>))
   \<and> tags_response \<lparr>tq_id = None\<rparr> [item_A] [tag_T1]
        = [\<lparr>tg_id = ''T1'', tg_link = Some \<lparr>ln_id = ''A'', ln_type = ITEM\<rparr>,
            tg_createdAt = Some ''1970-01-01T00:15:00.000Z'',
            tg_updatedAt = Some ''1970-01-01T00:15:00.000Z''\<rparr>]"
proof -
  have 1: "tg_link (mapTag (itemByTag items) tag) = None"
    if "gt_id tag \<notin> gi_Tag ` set items"
  proof -
    from that have "\<forall>i \<in> set items. gi_Tag i \<noteq> gt_id tag"
      by (metis imageI)
    then have "filter (\<lambda>i. gi_Tag i = gt_id tag) items = []"
      by (simp add: filter_empty_conv)
    then show ?thesis by (simp add: tg_link_mapTag)
  qed
  have 2: "tg_link (mapTag (itemByTag items) tag)
          = (let r = last (filter (\<lambda>i. gi_Tag i = gt_id tag) items)
             in if gi_ID2 r = [] then None else Some \<lparr>ln_id = gi_ID2 r, ln_type = ITEM\<rparr>)"
    if "gt_id tag \<in> gi_Tag ` set items"
  proof -
    from that have "filter (\<lambda>i. gi_Tag i = gt_id tag) items \<noteq> []"
      by (auto simp: filter_empty_conv)
    then show ?thesis by (simp add: tg_link_mapTag Let_def split: list.splits)
  qed
  have 3: "tags_response \<lparr>tq_id = None\<rparr> [item_A] [tag_T1]
        = [\<lparr>tg_id = ''T1'', tg_link = Some \<lparr>ln_id = ''A'', ln_type = ITEM\<rparr>,
            tg_createdAt = Some ''1970-01-01T00:15:00.000Z'',
            tg_updatedAt = Some ''1970-01-01T00:15:00.000Z''\<rparr>]"
    by (simp add: tags_response_eq match_tags_filters truthy_None mapTag_def Let_def
        itemByTag_def new_Map_map_of truthy_Some item_A_def tag_T1_def toISOTimestamp_900)
  from 1 2 3 show ?thesis by blast
qed

theorem tag_link_null_or_last_witness:
  "gt_id tag_T1 \<notin> gi_Tag ` set [] \<and> tg_link (mapTag (itemByTag []) tag_T1) = None
   \<and> gt_id tag_T1 \<in> gi_Tag ` set [item_A]
   \<and> tg_link (mapTag (itemByTag [item_A]) tag_T1) = Some \<lparr>ln_id = ''A'', ln_type = ITEM\<rparr>"
  using tag_link_null_or_last [where items = "[]" and tag = tag_T1]
    tag_link_null_or_last [where items = "[item_A]" and tag = tag_T1]
  by (simp add: item_A_def tag_T1_def)

text \<open>
  An item row with the empty \<^verbatim>\<open>ID2\<close> refers to the tag, and the link is null.
\<close>

theorem tag_link_counterexample:
  "gi_Tag (item_A\<lparr>gi_ID2 := []\<rparr>) = gt_id tag_T1
   \<and> tg_link (mapTag (itemByTag [item_A\<lparr>gi_ID2 := []\<rparr>]) tag_T1) = None"
  by (simp add: tg_link_mapTag item_A_def tag_T1_def)

subsection \<open>Several items with the same tag reference\<close>

text \<open>
  Claim C10, as the code has it. When two or more item rows have the \<^verbatim>\<open>Tag\<close> value of
  a tag row, the map from tag numeric id to item id holds the \<^verbatim>\<open>ID2\<close> of the last of
  them in row order, and the produced tag is the one that the last row alone would
  give: its link has that \<^verbatim>\<open>ID2\<close> as id when it is not the empty string, and is null
  when it is. The rows before the last one have no effect; the link is one object or
  null.
\<close>

theorem shared_tag_last_wins:
  assumes "2 \<le> length (filter (\<lambda>i. gi_Tag i = gt_id tag) items)"
  shows "itemByTag items (gt_id tag)
           = Some (gi_ID2 (last (filter (\<lambda>i. gi_Tag i = gt_id tag) items)))
       \<and> mapTag (itemByTag items) tag
           = mapTag (itemByTag [last (filter (\<lambda>i. gi_Tag i = gt_id tag) items)]) tag
       \<and> tg_link (mapTag (itemByTag items) tag)
           = (if gi_ID2 (last (filter (\<lambda>i. gi_Tag i = gt_id tag) items)) = [] then None
              else Some \<lparr>ln_id = gi_ID2 (last (filter (\<lambda>i. gi_Tag i = gt_id tag) items)),
                         ln_type = ITEM\<rparr>)"
proof -
  let ?rs = "filter (\<lambda>i. gi_Tag i = gt_id tag) items"
  from assms have ne: "?rs \<noteq> []" by auto
  then have "last ?rs \<in> set ?rs" by (rule last_in_set)
  then have lt: "gi_Tag (last ?rs) = gt_id tag" by simp
  have m: "itemByTag items (gt_id tag) = Some (gi_ID2 (last ?rs))"
    using ne by (simp add: itemByTag_def new_Map_last split: list.splits)
  have m1: "itemByTag [last ?rs] (gt_id tag) = Some (gi_ID2 (last ?rs))"
    using lt by (simp add: itemByTag_def new_Map_map_of)
  have e: "mapTag (itemByTag items) tag = mapTag (itemByTag [last ?rs]) tag"
    by (simp only: mapTag_def m m1)
  have l: "tg_link (mapTag (itemByTag items) tag)
           = (if gi_ID2 (last ?rs) = [] then None
              else Some \<lparr>ln_id = gi_ID2 (last ?rs), ln_type = ITEM\<rparr>)"
    using ne by (simp add: tg_link_mapTag split: list.splits)
  from m e l show ?thesis by blast
qed

theorem shared_tag_last_wins_witness:
  "2 \<le> length (filter (\<lambda>i. gi_Tag i = gt_id tag_T1) [item_A, item_A\<lparr>gi_id := 2, gi_ID2 := ''B''\<rparr>])
   \<and> itemByTag [item_A, item_A\<lparr>gi_id := 2, gi_ID2 := ''B''\<rparr>] (gt_id tag_T1) = Some ''B''
   \<and> tg_link (mapTag (itemByTag [item_A, item_A\<lparr>gi_id := 2, gi_ID2 := ''B''\<rparr>]) tag_T1)
       = Some \<lparr>ln_id = ''B'', ln_type = ITEM\<rparr>"
  using shared_tag_last_wins [of tag_T1 "[item_A, item_A\<lparr>gi_id := 2, gi_ID2 := ''B''\<rparr>]"]
  by (simp add: item_A_def tag_T1_def itemByTag_def new_Map_map_of tg_link_mapTag)

text \<open>
  Two item rows refer to the tag and the last has the empty \<^verbatim>\<open>ID2\<close>: the link is
  null, so it is not the object whose id is the last row's \<^verbatim>\<open>ID2\<close>.
\<close>

theorem shared_tag_counterexample:
  "gi_Tag item_A = gt_id tag_T1 \<and> gi_Tag (item_A\<lparr>gi_id := 2, gi_ID2 := []\<rparr>) = gt_id tag_T1
   \<and> tg_link (mapTag (itemByTag [item_A, item_A\<lparr>gi_id := 2, gi_ID2 := []\<rparr>]) tag_T1) = None"
  by (simp add: tg_link_mapTag item_A_def tag_T1_def)

subsection \<open>Timestamps\<close>

text \<open>
  Facts of integer division used below: the quotient's bounds, and how the quotient
  moves when the dividend grows by one.
\<close>

lemma div_bounds:
  fixes a k :: int
  assumes "0 < k"
  shows "k * (a div k) \<le> a \<and> a < k * (a div k) + k"
proof -
  have "a = k * (a div k) + a mod k" by simp
  moreover have "0 \<le> a mod k" "a mod k < k" using assms by simp_all
  ultimately show ?thesis by linarith
qed

lemma div_next:
  fixes a k :: int
  assumes "0 < k"
  shows "(a + 1) div k = a div k + (if k dvd a + 1 then 1 else 0)"
proof -
  define q r where "q = a div k" and "r = a mod k"
  have a: "a = k * q + r" and r0: "0 \<le> r" and rk: "r < k"
    using assms by (simp_all add: q_def r_def)
  show ?thesis
  proof (cases "r + 1 < k")
    case True
    have e: "a + 1 = k * q + (r + 1)" using a by simp
    have d: "(a + 1) div k = q"
      by (rule int_div_pos_eq [OF e]) (use r0 True in simp_all)
    have m: "(a + 1) mod k = r + 1"
      by (rule int_mod_pos_eq [OF e]) (use r0 True in simp_all)
    from m r0 have "\<not> k dvd a + 1" by (simp add: dvd_eq_mod_eq_0)
    with d show ?thesis by (simp add: q_def)
  next
    case False
    with rk have rk1: "r + 1 = k" by simp
    have e: "a + 1 = k * (q + 1) + 0" using a rk1 by (simp add: algebra_simps)
    have d: "(a + 1) div k = q + 1"
      by (rule int_div_pos_eq [OF e]) (use assms in simp_all)
    have "k dvd a + 1" using e by simp
    with d show ?thesis by (simp add: q_def)
  qed
qed

lemma div_shift_next:
  fixes y k c :: int
  assumes "0 < k"
  shows "(y - k * c) div k = (y - (k * c + 1)) div k + (if k dvd y then 1 else 0)"
proof -
  have "y - k * c = (y - (k * c + 1)) + 1" by simp
  moreover have "(k dvd (y - (k * c + 1)) + 1) = (k dvd y)"
  proof -
    have "(y - (k * c + 1)) + 1 = y - k * c" by simp
    then show ?thesis by (simp only: dvd_diff_left_iff [OF dvd_triv_left])
  qed
  ultimately show ?thesis using div_next [OF assms, of "y - (k * c + 1)"] by simp
qed

lemma DaysInYear_dvd:
  "DaysInYear y = 365 + (if 4 dvd y then 1 else 0) - (if 100 dvd y then 1 else 0)
     + (if 400 dvd y then 1 else 0)"
proof -
  have a: "100 dvd y \<Longrightarrow> 4 dvd y"
    by (rule dvd_trans [of 4 100]) simp_all
  have b: "400 dvd y \<Longrightarrow> 100 dvd y"
    by (rule dvd_trans [of 100 400]) simp_all
  show ?thesis
    using a b by (auto simp: DaysInYear_def dvd_eq_mod_eq_0 [symmetric])
qed

lemma DayFromYear_next: "DayFromYear (y + 1) = DayFromYear y + DaysInYear y"
proof -
  have a: "(y - 1968) div 4 = (y - 1969) div 4 + (if 4 dvd y then 1 else 0)"
    using div_shift_next [of 4 y 492] by simp
  have b: "(y - 1900) div 100 = (y - 1901) div 100 + (if 100 dvd y then 1 else 0)"
    using div_shift_next [of 100 y 19] by simp
  have c: "(y - 1600) div 400 = (y - 1601) div 400 + (if 400 dvd y then 1 else 0)"
    using div_shift_next [of 400 y 4] by simp
  have "DayFromYear (y + 1)
      = 365 * (y - 1969) + (y - 1968) div 4 - (y - 1900) div 100 + (y - 1600) div 400"
    by (simp add: DayFromYear_def)
  also have "\<dots> = DayFromYear y + DaysInYear y"
    unfolding a b c DaysInYear_dvd DayFromYear_def by (simp add: algebra_simps)
  finally show ?thesis .
qed

lemma DayFromYear_1970: "DayFromYear 1970 = 0"
  by (simp add: DayFromYear_def)

lemma estimate_linear:
  fixes y q1 q2 q3 :: int
  assumes "4 * q1 \<le> y - 1969" "y - 1969 < 4 * q1 + 4"
    and "100 * q2 \<le> y - 1901" "y - 1901 < 100 * q2 + 100"
    and "400 * q3 \<le> y - 1601" "y - 1601 < 400 * q3 + 400"
  shows "3652425 * (y - 1970) - 15175 < 10000 * (365 * (y - 1970) + q1 - q2 + q3)
       \<and> 10000 * (365 * (y - 1970) + q1 - q2 + q3) < 3652425 * (y - 1970) + 14825"
proof
  have "2500 * (y - 1969) < 2500 * (4 * q1 + 4)" using assms(2) by simp
  moreover have "100 * (100 * q2) \<le> 100 * (y - 1901)" using assms(3) by simp
  moreover have "25 * (y - 1601) < 25 * (400 * q3 + 400)" using assms(6) by simp
  ultimately show "3652425 * (y - 1970) - 15175 < 10000 * (365 * (y - 1970) + q1 - q2 + q3)"
    by simp
next
  have "2500 * (4 * q1) \<le> 2500 * (y - 1969)" using assms(1) by simp
  moreover have "100 * (y - 1901) < 100 * (100 * q2 + 100)" using assms(4) by simp
  moreover have "25 * (400 * q3) \<le> 25 * (y - 1601)" using assms(5) by simp
  ultimately show "10000 * (365 * (y - 1970) + q1 - q2 + q3) < 3652425 * (y - 1970) + 14825"
    by simp
qed

lemma DayFromYear_estimate:
  "3652425 * (y - 1970) - 15175 < 10000 * DayFromYear y
   \<and> 10000 * DayFromYear y < 3652425 * (y - 1970) + 14825"
  unfolding DayFromYear_def
  using div_bounds [of 4 "y - 1969"] div_bounds [of 100 "y - 1901"] div_bounds [of 400 "y - 1601"]
  by (intro estimate_linear) simp_all

lemma Day_bounds: "msPerDay * Day t \<le> t \<and> t < msPerDay * Day t + msPerDay"
  unfolding Day_def by (rule div_bounds) (simp add: msPerDay_def)

lemma less_TimeFromYear: "(t < TimeFromYear y) = (Day t < DayFromYear y)"
proof -
  have "86400000 * Day t \<le> t" "t < 86400000 * Day t + 86400000"
    using Day_bounds [of t] by (simp_all add: msPerDay_def)
  moreover have "(86400000 * Day t + 86400000 \<le> 86400000 * DayFromYear y)
      = (Day t < DayFromYear y)"
    by linarith
  ultimately show ?thesis unfolding TimeFromYear_def msPerDay_def by linarith
qed

lemma YearFromTime_bounds:
  "DayFromYear (YearFromTime t) \<le> Day t \<and> Day t < DayFromYear (YearFromTime t + 1)"
proof -
  define d where "d = Day t"
  define n where "n = (d * 10000) div 3652425"
  define y0 where "y0 = 1970 + n"
  have n: "3652425 * n \<le> d * 10000" "d * 10000 < 3652425 * n + 3652425"
    using div_bounds [of 3652425 "d * 10000"] by (simp_all add: n_def)
  have lo: "DayFromYear (y0 - 1) \<le> d"
  proof -
    have "10000 * DayFromYear (y0 - 1) < 3652425 * (y0 - 1 - 1970) + 14825"
      using DayFromYear_estimate [of "y0 - 1"] by simp
    with n(1) have "10000 * DayFromYear (y0 - 1) < 10000 * d"
      by (simp add: y0_def)
    then show ?thesis by simp
  qed
  have hi: "d < DayFromYear (y0 + 2)"
  proof -
    have "3652425 * (y0 + 2 - 1970) - 15175 < 10000 * DayFromYear (y0 + 2)"
      using DayFromYear_estimate [of "y0 + 2"] by simp
    with n(2) have "10000 * d < 10000 * DayFromYear (y0 + 2)"
      by (simp add: y0_def)
    then show ?thesis by simp
  qed
  have Y: "YearFromTime t =
      (if d < DayFromYear y0 then y0 - 1
       else if DayFromYear (y0 + 1) \<le> d then y0 + 1 else y0)"
    by (simp add: YearFromTime_def Let_def less_TimeFromYear not_less [symmetric]
        d_def n_def y0_def)
  show ?thesis
    unfolding Y d_def [symmetric] using lo hi
    by (auto simp: add.assoc)
qed

lemma DaysInYear_cases: "DaysInYear y = 365 \<or> DaysInYear y = 366"
  by (simp add: DaysInYear_def)

lemma DayFromYear_mono: "y \<le> z \<Longrightarrow> DayFromYear y \<le> DayFromYear z"
proof (induction z rule: int_ge_induct)
  case base
  show ?case by simp
next
  case (step i)
  have "0 < DaysInYear i" using DaysInYear_cases [of i] by auto
  with step show ?case by (simp add: DayFromYear_next)
qed

lemma less_eq_TimeFromYear: "(TimeFromYear y \<le> t) = (DayFromYear y \<le> Day t)"
  using less_TimeFromYear [of t y] by linarith

text \<open>
  The year computed is the year of the ECMAScript specification: the largest \<open>y\<close> whose
  first instant is not after \<open>t\<close>.
\<close>

lemma YearFromTime_largest:
  "TimeFromYear (YearFromTime t) \<le> t \<and> (\<forall>y. TimeFromYear y \<le> t \<longrightarrow> y \<le> YearFromTime t)"
proof (intro conjI allI impI)
  show "TimeFromYear (YearFromTime t) \<le> t"
    using YearFromTime_bounds [of t] by (simp add: less_eq_TimeFromYear)
next
  fix y
  assume "TimeFromYear y \<le> t"
  then have y: "DayFromYear y \<le> Day t" by (simp add: less_eq_TimeFromYear)
  show "y \<le> YearFromTime t"
  proof (rule ccontr)
    assume "\<not> y \<le> YearFromTime t"
    then have "YearFromTime t + 1 \<le> y" by simp
    then have "DayFromYear (YearFromTime t + 1) \<le> DayFromYear y" by (rule DayFromYear_mono)
    with y YearFromTime_bounds [of t] show False by linarith
  qed
qed

lemma DayWithinYear_range: "0 \<le> DayWithinYear t \<and> DayWithinYear t < 365 + InLeapYear t"
  using YearFromTime_bounds [of t] DaysInYear_cases [of "YearFromTime t"]
  by (auto simp: DayWithinYear_def InLeapYear_def DayFromYear_next)

lemma InLeapYear_cases: "InLeapYear t = 0 \<or> InLeapYear t = 1"
  by (simp add: InLeapYear_def)

lemma time_of_day:
  "t = Day t * msPerDay + HourFromTime t * msPerHour + MinFromTime t * msPerMinute
         + SecFromTime t * msPerSecond + msFromTime t"
proof -
  have 1: "t = 1000 * (t div 1000) + t mod 1000" by simp
  have 2: "t div 1000 = 60 * (t div 1000 div 60) + t div 1000 mod 60" by simp
  have 3: "t div 1000 div 60 = t div 60000"
    using zdiv_zmult2_eq [of 60 t 1000] by simp
  have 4: "t div 60000 = 60 * (t div 60000 div 60) + t div 60000 mod 60" by simp
  have 5: "t div 60000 div 60 = t div 3600000"
    using zdiv_zmult2_eq [of 60 t 60000] by simp
  have 6: "t div 3600000 = 24 * (t div 3600000 div 24) + t div 3600000 mod 24" by simp
  have 7: "t div 3600000 div 24 = t div 86400000"
    using zdiv_zmult2_eq [of 24 t 3600000] by simp
  show ?thesis
    unfolding Day_def HourFromTime_def MinFromTime_def SecFromTime_def msFromTime_def
      msPerDay_def msPerHour_def msPerMinute_def msPerSecond_def
    using 1 2 3 4 5 6 7 by linarith
qed

lemma time_fields_range:
  "0 \<le> HourFromTime t \<and> HourFromTime t < 24 \<and> 0 \<le> MinFromTime t \<and> MinFromTime t < 60
   \<and> 0 \<le> SecFromTime t \<and> SecFromTime t < 60 \<and> 0 \<le> msFromTime t \<and> msFromTime t < 1000"
  by (simp add: HourFromTime_def MinFromTime_def SecFromTime_def msFromTime_def msPerSecond_def)

lemma div_shift:
  fixes a k c :: int
  assumes "k \<noteq> 0"
  shows "(a - c * k) div k = a div k - c"
  using div_mult_self1 [OF assms, of a "- c"] by simp

lemma days_before_year_eq: "days_before_year y = DayFromYear y"
proof -
  have a: "(y - 1969) div 4 = (y - 1) div 4 - 492"
    using div_shift [of 4 "y - 1" 492] by simp
  have b: "(y - 1901) div 100 = (y - 1) div 100 - 19"
    using div_shift [of 100 "y - 1" 19] by simp
  have c: "(y - 1601) div 400 = (y - 1) div 400 - 4"
    using div_shift [of 400 "y - 1" 4] by simp
  show ?thesis
    by (simp add: days_before_year_def leap_years_before_def DayFromYear_def a b c)
qed

lemma is_leap_year_iff: "is_leap_year (YearFromTime t) = (InLeapYear t = 1)"
  by (auto simp: is_leap_year_def InLeapYear_def DaysInYear_def)

lemma days_before_month_values:
  "days_before_month y 1 = 31"
  "days_before_month y 2 = 59 + (if is_leap_year y then 1 else 0)"
  "days_before_month y 3 = 90 + (if is_leap_year y then 1 else 0)"
  "days_before_month y 4 = 120 + (if is_leap_year y then 1 else 0)"
  "days_before_month y 5 = 151 + (if is_leap_year y then 1 else 0)"
  "days_before_month y 6 = 181 + (if is_leap_year y then 1 else 0)"
  "days_before_month y 7 = 212 + (if is_leap_year y then 1 else 0)"
  "days_before_month y 8 = 243 + (if is_leap_year y then 1 else 0)"
  "days_before_month y 9 = 273 + (if is_leap_year y then 1 else 0)"
  "days_before_month y 10 = 304 + (if is_leap_year y then 1 else 0)"
  "days_before_month y 11 = 334 + (if is_leap_year y then 1 else 0)"
  by (simp_all add: eval_nat_numeral days_in_month_def)

lemma month_date:
  "0 \<le> MonthFromTime t \<and> MonthFromTime t \<le> 11 \<and> 1 \<le> DateFromTime t
   \<and> DateFromTime t \<le> days_in_month (YearFromTime t) (MonthFromTime t + 1)
   \<and> days_before_month (YearFromTime t) (nat (MonthFromTime t)) + (DateFromTime t - 1)
       = DayWithinYear t"
proof -
  define d where "d = DayWithinYear t"
  define l where "l = InLeapYear t"
  have r: "0 \<le> d" "d < 365 + l" using DayWithinYear_range [of t] by (simp_all add: d_def l_def)
  have L: "is_leap_year (YearFromTime t) = (l = 1)" by (simp add: is_leap_year_iff l_def)
  from InLeapYear_cases [of t] have "l = 0 \<or> l = 1" by (simp add: l_def)
  then show ?thesis
  proof
    assume l: "l = 0"
    show ?thesis
      unfolding MonthFromTime_def DateFromTime_def Let_def d_def [symmetric] l_def [symmetric]
      using r by (simp add: days_before_month_values days_in_month_def L l)
  next
    assume l: "l = 1"
    show ?thesis
      unfolding MonthFromTime_def DateFromTime_def Let_def d_def [symmetric] l_def [symmetric]
      using r by (simp add: days_before_month_values days_in_month_def L l)
  qed
qed

lemma digit_value_digit_char: "0 \<le> d \<Longrightarrow> d \<le> 9 \<Longrightarrow> digit_value (digit_char d) = Some d"
  by (simp add: digit_value_def digit_char_def Let_def)

lemma length_pad: "length (pad k n) = k"
  by (induction k arbitrary: n) simp_all

lemma decimal_from_append:
  "decimal_from acc (xs @ ys)
     = (case decimal_from acc xs of None \<Rightarrow> None | Some a \<Rightarrow> decimal_from a ys)"
  by (induction xs arbitrary: acc) (simp_all split: option.splits)

lemma decimal_from_pad:
  "0 \<le> n \<Longrightarrow> n < 10 ^ k \<Longrightarrow> decimal_from acc (pad k n) = Some (acc * 10 ^ k + n)"
proof (induction k arbitrary: n)
  case 0
  then show ?case by simp
next
  case (Suc k)
  from Suc.prems have "0 \<le> n div 10" "n div 10 < 10 ^ k"
    by (simp_all add: div_less_iff_less_mult pos_imp_zdiv_nonneg_iff mult.commute)
  then have "decimal_from acc (pad k (n div 10)) = Some (acc * 10 ^ k + n div 10)"
    by (rule Suc.IH)
  moreover have "digit_value (digit_char (n mod 10)) = Some (n mod 10)"
    by (rule digit_value_digit_char) simp_all
  moreover have "10 * (n div 10) + n mod 10 = n" by simp
  ultimately show ?case
    by (simp add: decimal_from_append algebra_simps)
qed

lemma decimal_pad: "0 < k \<Longrightarrow> 0 \<le> n \<Longrightarrow> n < 10 ^ k \<Longrightarrow> decimal (pad k n) = Some n"
proof -
  assume k: "0 < k" and n: "0 \<le> n" "n < 10 ^ k"
  have "length (pad k n) \<noteq> 0" using k by (simp add: length_pad)
  then have "pad k n \<noteq> []" by (simp del: length_pad)
  with decimal_from_pad [OF n, of 0] show ?thesis by (simp add: decimal_def)
qed

lemma iso_instant_format:
  assumes "0 \<le> y" "y \<le> 9999" "1 \<le> m" "m \<le> 12" "1 \<le> d" "d \<le> days_in_month y m"
    and "0 \<le> h" "h \<le> 23" "0 \<le> mi" "mi \<le> 59" "0 \<le> sec" "sec \<le> 59" "0 \<le> ms" "ms \<le> 999"
  shows "iso_instant (pad 4 y @ ''-'' @ pad 2 m @ ''-'' @ pad 2 d @ ''T'' @ pad 2 h @ '':''
           @ pad 2 mi @ '':'' @ pad 2 sec @ ''.'' @ pad 3 ms @ ''Z'')
         = Some (civil_instant y m d h mi sec ms)"
proof -
  have d31: "d \<le> 31" using assms(6) by (simp add: days_in_month_def split: if_splits)
  have dy: "decimal (pad 4 y) = Some y" using assms by (intro decimal_pad) simp_all
  have dm: "decimal (pad 2 m) = Some m" using assms by (intro decimal_pad) simp_all
  have dd: "decimal (pad 2 d) = Some d" using assms d31 by (intro decimal_pad) simp_all
  have dh: "decimal (pad 2 h) = Some h" using assms by (intro decimal_pad) simp_all
  have dmi: "decimal (pad 2 mi) = Some mi" using assms by (intro decimal_pad) simp_all
  have ds: "decimal (pad 2 sec) = Some sec" using assms by (intro decimal_pad) simp_all
  have dms: "decimal (pad 3 ms) = Some ms" using assms by (intro decimal_pad) simp_all
  show ?thesis
    unfolding iso_instant_def
    using assms by (simp add: length_pad nth_append dy dm dd dh dmi ds dms)
qed

lemma iso_instant_toISOString:
  assumes "0 \<le> YearFromTime t" "YearFromTime t \<le> 9999"
  shows "length (toISOString t) = 24 \<and> iso_instant (toISOString t) = Some t"
proof -
  let ?y = "YearFromTime t"
  have s: "toISOString t
      = pad 4 ?y @ ''-'' @ pad 2 (MonthFromTime t + 1) @ ''-'' @ pad 2 (DateFromTime t) @ ''T''
          @ pad 2 (HourFromTime t) @ '':'' @ pad 2 (MinFromTime t) @ '':''
          @ pad 2 (SecFromTime t) @ ''.'' @ pad 3 (msFromTime t) @ ''Z''"
    using assms by (simp add: toISOString_def year_string_def)
  have len: "length (toISOString t) = 24"
    unfolding s by (simp add: length_pad)
  have md: "0 \<le> MonthFromTime t" "MonthFromTime t \<le> 11" "1 \<le> DateFromTime t"
    "DateFromTime t \<le> days_in_month ?y (MonthFromTime t + 1)"
    "days_before_month ?y (nat (MonthFromTime t)) + (DateFromTime t - 1) = DayWithinYear t"
    using month_date [of t] by simp_all
  have tf: "0 \<le> HourFromTime t" "HourFromTime t \<le> 23" "0 \<le> MinFromTime t"
    "MinFromTime t \<le> 59" "0 \<le> SecFromTime t" "SecFromTime t \<le> 59" "0 \<le> msFromTime t"
    "msFromTime t \<le> 999"
    using time_fields_range [of t] by simp_all
  have "iso_instant (toISOString t)
      = Some (civil_instant ?y (MonthFromTime t + 1) (DateFromTime t) (HourFromTime t)
                (MinFromTime t) (SecFromTime t) (msFromTime t))"
    unfolding s using assms md(1-4) tf by (intro iso_instant_format) simp_all
  moreover have "civil_instant ?y (MonthFromTime t + 1) (DateFromTime t) (HourFromTime t)
                (MinFromTime t) (SecFromTime t) (msFromTime t) = t"
  proof -
    have "days_before_year ?y + days_before_month ?y (nat (MonthFromTime t))
            + (DateFromTime t - 1) = Day t"
      using md(5) by (simp add: days_before_year_eq DayWithinYear_def)
    then show ?thesis
      using time_of_day [of t]
      by (simp add: civil_instant_def msPerDay_def msPerHour_def msPerMinute_def msPerSecond_def)
  qed
  ultimately show ?thesis using len by simp
qed

lemma year_range_32bit:
  assumes "- (2 ^ 31) \<le> e" and "e < 2 ^ 32"
  shows "1901 \<le> YearFromTime (e * 1000) \<and> YearFromTime (e * 1000) \<le> 2106"
proof -
  let ?t = "e * 1000"
  let ?y = "YearFromTime ?t"
  have d: "- 24856 \<le> Day ?t" "Day ?t \<le> 49710"
    using assms Day_bounds [of ?t] by (simp_all add: msPerDay_def)
  have b: "DayFromYear ?y \<le> Day ?t" "Day ?t < DayFromYear (?y + 1)"
    using YearFromTime_bounds [of ?t] by simp_all
  have lo: "1901 \<le> ?y"
  proof (rule ccontr)
    assume "\<not> 1901 \<le> ?y"
    then have "?y + 1 - 1970 \<le> - 69" by simp
    then have "3652425 * (?y + 1 - 1970) \<le> 3652425 * (- 69)" by (simp only: mult_left_mono)
    moreover have "10000 * DayFromYear (?y + 1) < 3652425 * (?y + 1 - 1970) + 14825"
      using DayFromYear_estimate [of "?y + 1"] by simp
    moreover have "10000 * (- 24856) < 10000 * DayFromYear (?y + 1)"
      using d(1) b(2) by simp
    ultimately show False by simp
  qed
  have hi: "?y \<le> 2106"
  proof (rule ccontr)
    assume "\<not> ?y \<le> 2106"
    then have "137 \<le> ?y - 1970" by simp
    then have "3652425 * 137 \<le> 3652425 * (?y - 1970)" by (simp only: mult_left_mono)
    moreover have "3652425 * (?y - 1970) - 15175 < 10000 * DayFromYear ?y"
      using DayFromYear_estimate [of ?y] by simp
    moreover have "10000 * DayFromYear ?y \<le> 10000 * 49710"
      using d(2) b(1) by simp
    ultimately show False by simp
  qed
  from lo hi show ?thesis by simp
qed

lemma toISOTimestamp_1000: "toISOTimestamp 1000 = Some ''1970-01-01T00:16:40.000Z''"
  by code_simp

text \<open>
  Claim C6. For every epoch value \<open>e\<close> of the 32-bit range, signed or unsigned (from
  \<open>- 2 ^ 31\<close> up to \<open>2 ^ 32 - 1\<close> seconds), \<^verbatim>\<open>toISOTimestamp\<close> yields a string and not
  \<^verbatim>\<open>null\<close>: the time value \<open>e * 1000\<close> is far inside the range of \<^verbatim>\<open>Date\<close>. The
  string has the 24 characters of \<^verbatim>\<open>YYYY-MM-DDTHH:mm:ss.sssZ\<close>, and read as an
  ISO-8601 UTC timestamp with milliseconds it denotes the instant \<open>e * 1000\<close>
  milliseconds after the epoch. The epoch value 1000 gives
  \<^verbatim>\<open>1970-01-01T00:16:40.000Z\<close>.
\<close>

theorem toISOTimestamp_32bit:
  assumes "- (2 ^ 31) \<le> e" and "e < 2 ^ 32"
  shows "(\<exists>s. toISOTimestamp e = Some s \<and> length s = 24 \<and> iso_instant s = Some (e * 1000))
       \<and> toISOTimestamp 1000 = Some ''1970-01-01T00:16:40.000Z''"
proof -
  have c: "TimeClip (e * 1000) = Some (e * 1000)"
    using assms by (simp add: TimeClip_def)
  have y: "0 \<le> YearFromTime (e * 1000)" "YearFromTime (e * 1000) \<le> 9999"
    using year_range_32bit [OF assms] by simp_all
  have "toISOTimestamp e = Some (toISOString (e * 1000))"
    by (simp add: toISOTimestamp_def toJSON_def c)
  with iso_instant_toISOString [OF y] toISOTimestamp_1000 show ?thesis by simp
qed

theorem toISOTimestamp_32bit_witness:
  "- (2 ^ 31) \<le> (2147483647::int) \<and> (2147483647::int) < 2 ^ 32
   \<and> toISOTimestamp 2147483647 = Some ''2038-01-19T03:14:07.000Z''
   \<and> iso_instant ''2038-01-19T03:14:07.000Z'' = Some (2147483647 * 1000)"
proof -
  have s: "toISOTimestamp 2147483647 = Some ''2038-01-19T03:14:07.000Z''"
    by code_simp
  from toISOTimestamp_32bit [of 2147483647] s show ?thesis by simp
qed

end
